theory Spec2Isabelle
  imports Main "HOL-Library.Word"
begin

section \<open>The Azure blob tree of dvc (src/dvc/tree/azure.py)\<close>

text \<open>
  The adapter \<open>AzureTree\<close> forwards a small file-system interface to the Azure Blob
  Storage client. The model keeps the adapter object, the remote store and the sequence
  of calls made on the store apart, so that what an operation asks of the store and what
  it changes can both be stated.
\<close>

subsection \<open>Python values\<close>

text \<open>
  Exceptions are values. \<open>AzureMissingResourceHttpError\<close> is the one exception the
  source catches by name, \<open>NotImplementedError\<close> the one it raises itself; every other
  exception raised by a collaborator is \<open>Raised\<close> with its class name.
\<close>

datatype error =
    NotImplementedError
  | AzureMissingResourceHttpError
  | Raised string

text \<open>Truth value of an optional string: \<open>None\<close> and the empty string are false.\<close>

definition truthy :: "string option \<Rightarrow> bool" where
  "truthy v = (case v of None \<Rightarrow> False | Some s \<Rightarrow> s \<noteq> [])"

text \<open>Python's \<open>a or b\<close> on optional strings: \<open>a\<close> when it is true, \<open>b\<close> otherwise.\<close>

definition py_or :: "string option \<Rightarrow> string option \<Rightarrow> string option" where
  "py_or a b = (if truthy a then a else b)"

text \<open>What an f-string prints for an optional string.\<close>

definition format_str :: "string option \<Rightarrow> string" where
  "format_str v = (case v of None \<Rightarrow> ''None'' | Some s \<Rightarrow> s)"

text \<open>\<open>str.endswith\<close>.\<close>

definition endswith :: "string \<Rightarrow> string \<Rightarrow> bool" where
  "endswith s suffix = (length suffix \<le> length s \<and> drop (length s - length suffix) s = suffix)"

text \<open>\<open>str.strip(chars)\<close> for a one-character argument: the character is removed from both ends.\<close>

definition strip :: "char \<Rightarrow> string \<Rightarrow> string" where
  "strip c s = rev (dropWhile (\<lambda>x. x = c) (rev (dropWhile (\<lambda>x. x = c) s)))"

text \<open>\<open>posixpath.join a b\<close> of the standard library, for two components.\<close>

definition posixpath_join :: "string \<Rightarrow> string \<Rightarrow> string" where
  "posixpath_join a b =
     (if take 1 b = ''/'' then b
      else if a = [] \<or> endswith a ''/'' then a @ b
      else a @ ''/'' @ b)"

text \<open>\<open>bytes.hex()\<close>: two lower-case hexadecimal digits per byte.\<close>

definition hexdigit :: "nat \<Rightarrow> char" where
  "hexdigit n = ''0123456789abcdef'' ! (n mod 16)"

definition hex :: "8 word list \<Rightarrow> string" where
  "hex bs = concat (map (\<lambda>b. [hexdigit (unat b div 16), hexdigit (unat b mod 16)]) bs)"

subsection \<open>Path references\<close>

text \<open>
  Modelled from the spec: the class \<open>CloudURLInfo\<close> is declared in dvc/path_info.py,
  which is not among the sources. The spec describes a path reference as a scheme tag, a
  container and a path within the container, written \<open>scheme://container[/path]\<close>, an
  immutable value from which a new reference is derived by appending to or replacing
  the path component.
\<close>

record CloudURLInfo =
  scheme :: string
  bucket :: string
  path :: string

text \<open>Modelled from the spec: the text before the first \<open>://\<close> and the text after it.\<close>

fun split_scheme :: "string \<Rightarrow> string \<times> string" where
  "split_scheme [] = ([], [])"
| "split_scheme (c # cs) =
     (if take 3 (c # cs) = ''://'' then ([], drop 3 (c # cs))
      else (case split_scheme cs of (s, r) \<Rightarrow> (c # s, r)))"

text \<open>
  Modelled from the spec: the constructor \<open>PATH_CLS(url)\<close> reads the textual form
  \<open>scheme://container[/path]\<close>; the container ends at the first separator.
\<close>

definition PATH_CLS :: "string \<Rightarrow> CloudURLInfo" where
  "PATH_CLS url =
     (case split_scheme url of (s, r) \<Rightarrow>
        \<lparr>scheme = s,
         bucket = takeWhile (\<lambda>c. c \<noteq> CHR ''/'') r,
         path = drop 1 (dropWhile (\<lambda>c. c \<noteq> CHR ''/'') r)\<rparr>)"

text \<open>Modelled from the spec: \<open>path_info.replace(path=p)\<close> replaces the path component only.\<close>

definition replace_path :: "CloudURLInfo \<Rightarrow> string \<Rightarrow> CloudURLInfo" where
  "replace_path p new_path = p\<lparr>path := new_path\<rparr>"

text \<open>Modelled from the spec: \<open>path_info / other\<close> appends \<open>other\<close> to the path component.\<close>

definition truediv :: "CloudURLInfo \<Rightarrow> string \<Rightarrow> CloudURLInfo" where
  "truediv p other = replace_path p (posixpath_join (path p) other)"

text \<open>
  The class attribute \<open>scheme = Schemes.AZURE\<close>. The constant is declared in
  dvc/scheme.py, outside the sources; its value is the scheme of the URL literals
  \<open>azure://\<close> of the constructor.
\<close>

definition Schemes_AZURE :: string where
  "Schemes_AZURE = ''azure''"

subsection \<open>The adapter object and its construction\<close>

text \<open>The keyword arguments kept for the client constructor (\<open>self._conn_kwargs\<close>).\<close>

record conn_options =
  connection_string :: "string option"
  sas_token :: "string option"
  account_name :: "string option"
  account_key :: "string option"

text \<open>
  The instance: the resolved path reference, the connection options, and the slot of the
  cached property \<open>blob_service\<close> (\<open>None\<close> until the client has been built), for a client
  handle of type \<open>'h\<close>.
\<close>

record 'h AzureTree =
  path_info :: CloudURLInfo
  conn_kwargs :: conn_options
  blob_service_cache :: "'h option"

text \<open>
  \<open>AzureTree.__init__\<close> (lines 29 to 48). \<open>config\<close> is the per-remote mapping,
  \<open>url_option config\<close> is \<open>config.get("url", "azure://")\<close>;
  \<open>az_config section option\<close> is \<open>self._az_config.get(section, option, None)\<close>, the lookup
  in the local command-line profile done by the knack library.
\<close>

definition url_option :: "(string \<rightharpoonup> string) \<Rightarrow> string" where
  "url_option config = (case config ''url'' of None \<Rightarrow> ''azure://'' | Some u \<Rightarrow> u)"

definition init :: "(string \<rightharpoonup> string) \<Rightarrow> (string \<Rightarrow> string \<Rightarrow> string option) \<Rightarrow> 'h AzureTree" where
  "init config az_config =
     (let url = url_option config;
          parsed = PATH_CLS url;
          resolved =
            (if bucket parsed = []
             then PATH_CLS (''azure://'' @ format_str (az_config ''storage'' ''container_name''))
             else parsed)
      in \<lparr>path_info = resolved,
          conn_kwargs =
            \<lparr>connection_string =
               py_or (config ''connection_string'') (az_config ''storage'' ''connection_string''),
             sas_token = py_or (config ''sas_token'') (az_config ''storage'' ''sas_token''),
             account_name = az_config ''storage'' ''account'',
             account_key = az_config ''storage'' ''key''\<rparr>,
          blob_service_cache = None\<rparr>)"

text \<open>
  The precedence rule in the words of the specification: the explicit per-remote value
  when the mapping has one, the value of the profile otherwise.
\<close>

definition spec_precedence ::
  "(string \<rightharpoonup> string) \<Rightarrow> (string \<Rightarrow> string \<Rightarrow> string option) \<Rightarrow> string \<Rightarrow> string option" where
  "spec_precedence config az_config opt =
     (case config opt of Some v \<Rightarrow> Some v | None \<Rightarrow> az_config ''storage'' opt)"

subsection \<open>The storage client\<close>

text \<open>
  The client library (\<open>azure.storage.blob.BlockBlobService\<close>) and \<open>base64.b64decode\<close> are
  not part of the repository; the adapter is modelled over any implementation of the
  calls it makes. \<open>'h\<close> is the client handle, \<open>'r\<close> the state of the remote store.
  Listing, property lookup and the existence check read the store; creating a container
  and deleting a blob may change it. Every call may raise.
\<close>

text \<open>The keyword arguments of \<open>list_blobs\<close> that the adapter uses.\<close>

record list_args =
  prefix :: "string option"
  delimiter :: "string option"
  num_results :: "nat option"
  marker :: "string option"

text \<open>
  What \<open>list_blobs\<close> returns: the blobs of one page (only \<open>blob.name\<close> is read) and the
  continuation marker.
\<close>

record blob_page =
  items :: "string list"
  next_marker :: "string option"

record ('h, 'r) sdk =
  BlockBlobService :: "conn_options \<Rightarrow> error + 'h"
  sdk_list_blobs :: "'h \<Rightarrow> string \<Rightarrow> list_args \<Rightarrow> 'r \<Rightarrow> error + blob_page"
  sdk_create_container :: "'h \<Rightarrow> string \<Rightarrow> 'r \<Rightarrow> error option \<times> 'r"
  sdk_get_blob_properties :: "'h \<Rightarrow> string \<Rightarrow> string \<Rightarrow> 'r \<Rightarrow> error + string option"
  sdk_exists :: "'h \<Rightarrow> string \<Rightarrow> string \<Rightarrow> 'r \<Rightarrow> error + bool"
  sdk_delete_blob :: "'h \<Rightarrow> string \<Rightarrow> string \<Rightarrow> 'r \<Rightarrow> error option \<times> 'r"
  b64decode :: "string \<Rightarrow> error + 8 word list"

text \<open>The calls made on the store, in the order they are made.\<close>

datatype request =
    ListBlobs string list_args
  | CreateContainer string
  | GetBlobProperties string string
  | Exists string string
  | DeleteBlob string string

text \<open>The adapter instance together with the store it talks to and the calls made so far.\<close>

record ('h, 'r) world =
  tree :: "'h AzureTree"
  calls :: "request list"
  store :: 'r

definition record_call :: "request \<Rightarrow> ('h, 'r) world \<Rightarrow> ('h, 'r) world" where
  "record_call q w = w\<lparr>calls := calls w @ [q]\<rparr>"

definition cache_handle :: "'h \<Rightarrow> ('h, 'r) world \<Rightarrow> ('h, 'r) world" where
  "cache_handle h w = w\<lparr>tree := (tree w)\<lparr>blob_service_cache := Some h\<rparr>\<rparr>"

text \<open>The arguments of the probe of line 77: \<open>delimiter="/", num_results=1\<close>.\<close>

definition probe_args :: list_args where
  "probe_args = \<lparr>prefix = None, delimiter = Some ''/'', num_results = Some 1, marker = None\<rparr>"

text \<open>
  The cached property \<open>blob_service\<close> (lines 65 to 82). A cached handle is returned as
  it is. Otherwise the client is built, the container is probed, created when the probe
  raises the missing-resource error, and the handle is cached; any other exception
  leaves the slot empty. The lock of \<open>wrap_prop\<close> has no effect on a single caller.
\<close>

definition blob_service :: "('h, 'r) sdk \<Rightarrow> ('h, 'r) world \<Rightarrow> (error + 'h) \<times> ('h, 'r) world" where
  "blob_service sdk w =
     (case blob_service_cache (tree w) of
        Some h \<Rightarrow> (Inr h, w)
      | None \<Rightarrow>
          (case BlockBlobService sdk (conn_kwargs (tree w)) of
             Inl e \<Rightarrow> (Inl e, w)
           | Inr h \<Rightarrow>
               (let container = bucket (path_info (tree w));
                    w1 = record_call (ListBlobs container probe_args) w
                in case sdk_list_blobs sdk h container probe_args (store w1) of
                     Inr found \<Rightarrow> (Inr h, cache_handle h w1)
                   | Inl AzureMissingResourceHttpError \<Rightarrow>
                       (let w2 = record_call (CreateContainer container) w1
                        in case sdk_create_container sdk h container (store w2) of
                             (None, r) \<Rightarrow> (Inr h, cache_handle h (w2\<lparr>store := r\<rparr>))
                           | (Some e, r) \<Rightarrow> (Inl e, w2\<lparr>store := r\<rparr>))
                   | Inl e \<Rightarrow> (Inl e, w1))))"

text \<open>Line 89: the stored digest, unquoted, decoded and rendered in hexadecimal, or \<open>None\<close>.\<close>

definition decode_md5 :: "('h, 'r) sdk \<Rightarrow> string option \<Rightarrow> error + string option" where
  "decode_md5 sdk file_md5 =
     (case file_md5 of
        None \<Rightarrow> Inr None
      | Some m \<Rightarrow>
          (if m = [] then Inr None
           else (case b64decode sdk (strip (CHR 0x22) m) of
                   Inl e \<Rightarrow> Inl e
                 | Inr bs \<Rightarrow> Inr (Some (hex bs)))))"

text \<open>\<open>_get_md5sum_file\<close> (lines 84 to 89).\<close>

definition get_md5sum_file ::
  "('h, 'r) sdk \<Rightarrow> string \<Rightarrow> string \<Rightarrow> ('h, 'r) world \<Rightarrow> (error + string option) \<times> ('h, 'r) world" where
  "get_md5sum_file sdk container name w =
     (case blob_service sdk w of
        (Inl e, w1) \<Rightarrow> (Inl e, w1)
      | (Inr h, w1) \<Rightarrow>
          (let w2 = record_call (GetBlobProperties container name) w1
           in case sdk_get_blob_properties sdk h container name (store w2) of
                Inl e \<Rightarrow> (Inl e, w2)
              | Inr file_md5 \<Rightarrow> (decode_md5 sdk file_md5, w2)))"

text \<open>\<open>isdir\<close> (lines 62 and 63).\<close>

definition isdir ::
  "('h, 'r) sdk \<Rightarrow> CloudURLInfo \<Rightarrow> ('h, 'r) world \<Rightarrow> (error + bool) \<times> ('h, 'r) world" where
  "isdir sdk p w =
     (case get_md5sum_file sdk (bucket p) (path p) w of
        (Inl e, w1) \<Rightarrow> (Inl e, w1)
      | (Inr h, w1) \<Rightarrow> (Inr (h = None), w1))"

text \<open>\<open>get_file_hash\<close> (lines 153 and 154).\<close>

definition get_file_hash ::
  "('h, 'r) sdk \<Rightarrow> CloudURLInfo \<Rightarrow> ('h, 'r) world \<Rightarrow> (error + string option) \<times> ('h, 'r) world" where
  "get_file_hash sdk p w = get_md5sum_file sdk (bucket p) (path p) w"

text \<open>\<open>exists\<close> (lines 109 and 110); the argument \<open>use_dvcignore\<close> is not read.\<close>

definition exists ::
  "('h, 'r) sdk \<Rightarrow> CloudURLInfo \<Rightarrow> ('h, 'r) world \<Rightarrow> (error + bool) \<times> ('h, 'r) world" where
  "exists sdk p w =
     (case blob_service sdk w of
        (Inl e, w1) \<Rightarrow> (Inl e, w1)
      | (Inr h, w1) \<Rightarrow>
          (let w2 = record_call (Exists (bucket p) (path p)) w1
           in (sdk_exists sdk h (bucket p) (path p) (store w2), w2)))"

text \<open>\<open>remove\<close> (lines 146 to 151).\<close>

definition remove_azure ::
  "('h, 'r) sdk \<Rightarrow> CloudURLInfo \<Rightarrow> ('h, 'r) world \<Rightarrow> (error + unit) \<times> ('h, 'r) world" where
  "remove_azure sdk p w =
     (if scheme p \<noteq> Schemes_AZURE then (Inl NotImplementedError, w)
      else (case blob_service sdk w of
              (Inl e, w1) \<Rightarrow> (Inl e, w1)
            | (Inr h, w1) \<Rightarrow>
                (let w2 = record_call (DeleteBlob (bucket p) (path p)) w1
                 in case sdk_delete_blob sdk h (bucket p) (path p) (store w2) of
                      (None, r) \<Rightarrow> (Inr (), w2\<lparr>store := r\<rparr>)
                    | (Some e, r) \<Rightarrow> (Inl e, w2\<lparr>store := r\<rparr>))))"

subsection \<open>Listing\<close>

text \<open>
  \<open>_list_paths\<close> and \<open>walk_files\<close> are generators. A generator is modelled together with
  the loop that consumes it: the body of the consuming \<open>for\<close> loop runs at each
  \<open>yield\<close>, on an accumulator \<open>acc\<close> and the world, and may raise. The result keeps what
  was accumulated up to the point where the run ended, and how it ended.
\<close>

datatype outcome =
    Finished
  | Failed error
  | Unfinished

text \<open>A \<open>for\<close> loop over the blobs of one page.\<close>

fun for_each ::
  "('x \<Rightarrow> 'a \<Rightarrow> 'w \<Rightarrow> error option \<times> 'a \<times> 'w) \<Rightarrow> 'x list \<Rightarrow> 'a \<Rightarrow> 'w \<Rightarrow> error option \<times> 'a \<times> 'w" where
  "for_each body [] acc w = (None, acc, w)"
| "for_each body (x # xs) acc w =
     (case body x acc w of
        (Some e, acc1, w1) \<Rightarrow> (Some e, acc1, w1)
      | (None, acc1, w1) \<Rightarrow> for_each body xs acc1 w1)"

text \<open>The arguments of the page request of lines 116 to 118.\<close>

definition page_args :: "string \<Rightarrow> string option \<Rightarrow> list_args" where
  "page_args pfx mark = \<lparr>prefix = Some pfx, delimiter = None, num_results = None, marker = mark\<rparr>"

text \<open>
  The \<open>while True\<close> loop of \<open>_list_paths\<close> (lines 115 to 126). The store decides whether a
  marker comes back, so the loop need not end: \<open>fuel\<close> bounds the number of page requests,
  and a run that is cut short is \<open>Unfinished\<close>.
\<close>

fun list_pages ::
  "nat \<Rightarrow> ('h, 'r) sdk \<Rightarrow> 'h \<Rightarrow> string \<Rightarrow> string \<Rightarrow>
   (string \<Rightarrow> 'a \<Rightarrow> ('h, 'r) world \<Rightarrow> error option \<times> 'a \<times> ('h, 'r) world) \<Rightarrow>
   string option \<Rightarrow> 'a \<Rightarrow> ('h, 'r) world \<Rightarrow> outcome \<times> 'a \<times> ('h, 'r) world" where
  "list_pages 0 sdk h container pfx body mark acc w = (Unfinished, acc, w)"
| "list_pages (Suc fuel) sdk h container pfx body mark acc w =
     (let w1 = record_call (ListBlobs container (page_args pfx mark)) w
      in case sdk_list_blobs sdk h container (page_args pfx mark) (store w1) of
           Inl e \<Rightarrow> (Failed e, acc, w1)
         | Inr blobs \<Rightarrow>
             (case for_each body (items blobs) acc w1 of
                (Some e, acc1, w2) \<Rightarrow> (Failed e, acc1, w2)
              | (None, acc1, w2) \<Rightarrow>
                  (if \<not> truthy (next_marker blobs) then (Finished, acc1, w2)
                   else list_pages fuel sdk h container pfx body (next_marker blobs) acc1 w2)))"

text \<open>\<open>_list_paths\<close> (lines 112 to 126): the client is fetched once, then the pages are read.\<close>

definition list_paths ::
  "nat \<Rightarrow> ('h, 'r) sdk \<Rightarrow> string \<Rightarrow> string \<Rightarrow>
   (string \<Rightarrow> 'a \<Rightarrow> ('h, 'r) world \<Rightarrow> error option \<times> 'a \<times> ('h, 'r) world) \<Rightarrow>
   'a \<Rightarrow> ('h, 'r) world \<Rightarrow> outcome \<times> 'a \<times> ('h, 'r) world" where
  "list_paths fuel sdk container pfx body acc w =
     (case blob_service sdk w of
        (Inl e, w1) \<Rightarrow> (Failed e, acc, w1)
      | (Inr h, w1) \<Rightarrow> list_pages fuel sdk h container pfx body None acc w1)"

text \<open>The consumer that collects the yielded names, as \<open>list(self._list_paths(...))\<close> does.\<close>

definition collect :: "string \<Rightarrow> string list \<Rightarrow> 'w \<Rightarrow> error option \<times> string list \<times> 'w" where
  "collect name acc w = (None, acc @ [name], w)"

text \<open>The body of the loop of \<open>walk_files\<close> (lines 135 to 144) for one listed name.\<close>

definition walk_step ::
  "('h, 'r) sdk \<Rightarrow> CloudURLInfo \<Rightarrow> string \<Rightarrow> CloudURLInfo list \<Rightarrow> ('h, 'r) world \<Rightarrow>
   error option \<times> CloudURLInfo list \<times> ('h, 'r) world" where
  "walk_step sdk p fname acc w =
     (if endswith fname ''/'' then (None, acc, w)
      else (case get_md5sum_file sdk (bucket p) fname w of
              (Inl e, w1) \<Rightarrow> (Some e, acc, w1)
            | (Inr None, w1) \<Rightarrow> (None, acc, w1)
            | (Inr (Some h), w1) \<Rightarrow> (None, acc @ [replace_path p fname], w1)))"

text \<open>
  \<open>walk_files\<close> (lines 128 to 144), collecting what it yields. \<open>prefix_kw\<close> is the keyword
  argument \<open>prefix\<close> (default \<open>False\<close>); no other keyword is accepted by \<open>_list_paths\<close>.
\<close>

definition walk_files ::
  "nat \<Rightarrow> ('h, 'r) sdk \<Rightarrow> CloudURLInfo \<Rightarrow> bool \<Rightarrow> ('h, 'r) world \<Rightarrow>
   outcome \<times> CloudURLInfo list \<times> ('h, 'r) world" where
  "walk_files fuel sdk query prefix_kw w =
     (let p = (if \<not> prefix_kw then truediv query [] else query)
      in list_paths fuel sdk (bucket p) (path p) (walk_step sdk p) [] w)"

subsection \<open>An in-memory store\<close>

text \<open>
  A small implementation of the client's calls, on which the adapter can be run: a store
  is a list of containers, each with its blobs in listing order, a blob being a name and
  its stored digest. Listing serves pages of \<open>mem_page_size\<close> names and uses the name of
  the next blob as the marker. Looking up or deleting a blob that is not there raises the
  missing-resource error, as does listing a container that is not there.
\<close>

type_synonym mem_store = "(string \<times> (string \<times> string option) list) list"

definition mem_page_size :: nat where
  "mem_page_size = 2"

definition mem_list_blobs :: "unit \<Rightarrow> string \<Rightarrow> list_args \<Rightarrow> mem_store \<Rightarrow> error + blob_page" where
  "mem_list_blobs h container args r =
     (case map_of r container of
        None \<Rightarrow> Inl AzureMissingResourceHttpError
      | Some blobs \<Rightarrow>
          (let pfx = (case prefix args of None \<Rightarrow> [] | Some p \<Rightarrow> p);
               matching = filter (\<lambda>n. take (length pfx) n = pfx) (map fst blobs);
               rest = (case marker args of
                         None \<Rightarrow> matching
                       | Some m \<Rightarrow> dropWhile (\<lambda>n. n \<noteq> m) matching);
               k = (case num_results args of None \<Rightarrow> mem_page_size | Some n \<Rightarrow> n)
           in Inr \<lparr>items = take k rest,
                   next_marker = (case drop k rest of [] \<Rightarrow> None | n # ns \<Rightarrow> Some n)\<rparr>))"

definition mem_create_container :: "unit \<Rightarrow> string \<Rightarrow> mem_store \<Rightarrow> error option \<times> mem_store" where
  "mem_create_container h container r =
     (case map_of r container of
        None \<Rightarrow> (None, r @ [(container, [])])
      | Some blobs \<Rightarrow> (Some (Raised ''AzureConflictHttpError''), r))"

definition mem_get_blob_properties ::
  "unit \<Rightarrow> string \<Rightarrow> string \<Rightarrow> mem_store \<Rightarrow> error + string option" where
  "mem_get_blob_properties h container name r =
     (case map_of r container of
        None \<Rightarrow> Inl AzureMissingResourceHttpError
      | Some blobs \<Rightarrow>
          (case map_of blobs name of
             None \<Rightarrow> Inl AzureMissingResourceHttpError
           | Some md5 \<Rightarrow> Inr md5))"

definition mem_exists :: "unit \<Rightarrow> string \<Rightarrow> string \<Rightarrow> mem_store \<Rightarrow> error + bool" where
  "mem_exists h container name r =
     (case map_of r container of
        None \<Rightarrow> Inr False
      | Some blobs \<Rightarrow> Inr (map_of blobs name \<noteq> None))"

definition mem_delete_blob :: "unit \<Rightarrow> string \<Rightarrow> string \<Rightarrow> mem_store \<Rightarrow> error option \<times> mem_store" where
  "mem_delete_blob h container name r =
     (case map_of r container of
        None \<Rightarrow> (Some AzureMissingResourceHttpError, r)
      | Some blobs \<Rightarrow>
          (if map_of blobs name = None then (Some AzureMissingResourceHttpError, r)
           else (None, map (\<lambda>(c, bs). if c = container
                                      then (c, filter (\<lambda>(n, d). n \<noteq> name) bs)
                                      else (c, bs)) r)))"

text \<open>Base64 of the standard alphabet, padded; anything else raises.\<close>

definition b64_index :: "char \<Rightarrow> nat option" where
  "b64_index c =
     (let n = (of_char c :: nat)
      in if 65 \<le> n \<and> n \<le> 90 then Some (n - 65)
         else if 97 \<le> n \<and> n \<le> 122 then Some (n - 71)
         else if 48 \<le> n \<and> n \<le> 57 then Some (n + 4)
         else if c = CHR ''+'' then Some 62
         else if c = CHR ''/'' then Some 63
         else None)"

definition b64_group :: "char \<Rightarrow> char \<Rightarrow> char \<Rightarrow> char \<Rightarrow> nat option" where
  "b64_group a b c d =
     (case (b64_index a, b64_index b, b64_index c, b64_index d) of
        (Some i, Some j, Some k, Some l) \<Rightarrow> Some (((i * 64 + j) * 64 + k) * 64 + l)
      | other \<Rightarrow> None)"

fun mem_b64decode :: "string \<Rightarrow> error + 8 word list" where
  "mem_b64decode [] = Inr []"
| "mem_b64decode (a # b # c # d # rest) =
     (if rest = [] \<and> c = CHR ''='' \<and> d = CHR ''='' then
        (case b64_group a b (CHR ''A'') (CHR ''A'') of
           None \<Rightarrow> Inl (Raised ''binascii.Error'')
         | Some n \<Rightarrow> Inr [of_nat (n div 65536)])
      else if rest = [] \<and> d = CHR ''='' then
        (case b64_group a b c (CHR ''A'') of
           None \<Rightarrow> Inl (Raised ''binascii.Error'')
         | Some n \<Rightarrow> Inr [of_nat (n div 65536), of_nat (n div 256)])
      else
        (case b64_group a b c d of
           None \<Rightarrow> Inl (Raised ''binascii.Error'')
         | Some n \<Rightarrow>
             (case mem_b64decode rest of
                Inl e \<Rightarrow> Inl e
              | Inr bs \<Rightarrow> Inr (of_nat (n div 65536) # of_nat (n div 256) # of_nat n # bs))))"
| "mem_b64decode other = Inl (Raised ''binascii.Error'')"

definition mem_sdk :: "(unit, mem_store) sdk" where
  "mem_sdk =
     \<lparr>BlockBlobService = (\<lambda>kw. Inr ()),
      sdk_list_blobs = mem_list_blobs,
      sdk_create_container = mem_create_container,
      sdk_get_blob_properties = mem_get_blob_properties,
      sdk_exists = mem_exists,
      sdk_delete_blob = mem_delete_blob,
      b64decode = mem_b64decode\<rparr>"

text \<open>A fresh adapter in front of a store on which nothing has been called yet.\<close>

definition fresh :: "'h AzureTree \<Rightarrow> 'r \<Rightarrow> ('h, 'r) world" where
  "fresh t r = \<lparr>tree = t, calls = [], store = r\<rparr>"

subsection \<open>Concrete configurations and stores\<close>

definition example_profile :: "string \<Rightarrow> string \<Rightarrow> string option" where
  "example_profile section opt =
     (if section = ''storage''
      then map_of [(''container_name'', ''data''), (''connection_string'', ''profile-cs''),
                   (''sas_token'', ''profile-sas''), (''account'', ''profile-account''),
                   (''key'', ''profile-key'')] opt
      else None)"

definition config_account :: "string \<rightharpoonup> string" where
  "config_account = map_of [(''account'', ''my-account''), (''key'', ''my-key'')]"

definition config_connection :: "string \<rightharpoonup> string" where
  "config_connection = map_of [(''connection_string'', ''my-cs''), (''sas_token'', [])]"

definition config_url :: "string \<rightharpoonup> string" where
  "config_url = map_of [(''url'', ''azure://c'')]"

definition tree_c :: "unit AzureTree" where
  "tree_c = init config_url example_profile"

text \<open>
  A container \<open>c\<close> with a directory marker, a blob with a digest, blobs without one, and a
  blob outside the directory \<open>a\<close>.
\<close>

definition store_c :: mem_store where
  "store_c =
     [(''c'', [(''a/'', None), (''a/x'', Some ''AQID''), (''a/y'', None),
                (''a/z'', Some ''/w==''), (''a/zz'', Some []), (''b'', Some ''AQID'')])]"

text \<open>
  The listing of the specification's example: \<open>a/x\<close> has a digest, \<open>a/\<close> is a directory
  marker without one, \<open>a/y\<close> has none.
\<close>

definition store_spec :: mem_store where
  "store_spec = [(''c'', [(''a/'', None), (''a/x'', Some ''AQID''), (''a/y'', None)])]"

subsection \<open>Notions used by the properties\<close>

text \<open>
  What \<open>_get_md5sum_file\<close> computes from the store once it holds the client \<open>h\<close>: the
  property lookup followed by the decoding of line 89.
\<close>

definition stored_hash ::
  "('h, 'r) sdk \<Rightarrow> 'h \<Rightarrow> string \<Rightarrow> string \<Rightarrow> 'r \<Rightarrow> error + string option" where
  "stored_hash sdk h container name r =
     (case sdk_get_blob_properties sdk h container name r of
        Inl e \<Rightarrow> Inl e
      | Inr file_md5 \<Rightarrow> decode_md5 sdk file_md5)"

text \<open>
  A listing requires the pages \<open>pgs\<close>: asked with the marker \<open>mark\<close>, the store answers
  with the first page; every page but the last carries a marker, with which the store
  answers with the next page; the last page carries none.
\<close>

fun serves :: "(string option \<Rightarrow> error + blob_page) \<Rightarrow> string option \<Rightarrow> blob_page list \<Rightarrow> bool" where
  "serves ask mark [] = False"
| "serves ask mark [pg] = (ask mark = Inr pg \<and> \<not> truthy (next_marker pg))"
| "serves ask mark (pg # pgs) =
     (ask mark = Inr pg \<and> truthy (next_marker pg) \<and> serves ask (next_marker pg) pgs)"

text \<open>The page requests of a listing of the pages \<open>pgs\<close>, in order.\<close>

definition page_requests :: "string \<Rightarrow> string \<Rightarrow> blob_page list \<Rightarrow> request list" where
  "page_requests container pfx pgs =
     map (\<lambda>m. ListBlobs container (page_args pfx m)) (None # map next_marker (butlast pgs))"

fun is_delete :: "request \<Rightarrow> bool" where
  "is_delete (DeleteBlob container name) = True"
| "is_delete other = False"

text \<open>
  A listed name is kept by \<open>walk_files\<close> when it is not a directory marker and its hash
  lookup does not give \<open>None\<close>; it is readable when it is a directory marker (no lookup is
  made) or its lookup does not raise.
\<close>

definition kept :: "('h, 'r) sdk \<Rightarrow> 'h \<Rightarrow> string \<Rightarrow> 'r \<Rightarrow> string \<Rightarrow> bool" where
  "kept sdk h container r name =
     (\<not> endswith name ''/'' \<and> stored_hash sdk h container name r \<noteq> Inr None)"

definition readable :: "('h, 'r) sdk \<Rightarrow> 'h \<Rightarrow> string \<Rightarrow> 'r \<Rightarrow> string \<Rightarrow> bool" where
  "readable sdk h container r name =
     (endswith name ''/'' \<or>
      (case stored_hash sdk h container name r of Inl e \<Rightarrow> False | Inr d \<Rightarrow> True))"

text \<open>
  The worlds reached from a fresh adapter once the client has been built (the probe
  has been made and the handle cached), and the pages the in-memory store serves.
\<close>

definition warm_c :: "(unit, mem_store) world" where
  "warm_c = cache_handle () (record_call (ListBlobs ''c'' probe_args) (fresh tree_c store_c))"

definition warm_spec :: "(unit, mem_store) world" where
  "warm_spec = cache_handle () (record_call (ListBlobs ''c'' probe_args) (fresh tree_c store_spec))"

definition pages_c :: "blob_page list" where
  "pages_c = [\<lparr>items = [''a/'', ''a/x''], next_marker = Some ''a/y''\<rparr>,
              \<lparr>items = [''a/y'', ''a/z''], next_marker = Some ''a/zz''\<rparr>,
              \<lparr>items = [''a/zz'', ''b''], next_marker = None\<rparr>]"

definition pages_spec :: "blob_page list" where
  "pages_spec = [\<lparr>items = [''a/'', ''a/x''], next_marker = Some ''a/y''\<rparr>,
                 \<lparr>items = [''a/y''], next_marker = None\<rparr>]"

section \<open>Properties\<close>

subsection \<open>Construction\<close>

lemma split_scheme_azure: "split_scheme (''azure://'' @ r) = (''azure'', r)"
  by simp

lemma bucket_PATH_CLS_azure:
  "CHR ''/'' \<notin> set C \<Longrightarrow> bucket (PATH_CLS (''azure://'' @ C)) = C"
  unfolding PATH_CLS_def split_scheme_azure by (auto simp: takeWhile_eq_all_conv)

text \<open>
  C1, as stated, fails: an explicit \<open>account\<close> in the configuration mapping does not take
  precedence. With \<open>account = my-account\<close> in the mapping and \<open>profile-account\<close> in the
  profile, the resolved account name is not the one the stated precedence rule gives.
\<close>

theorem init_auth_precedence_counterexample:
  "account_name (conn_kwargs (init config_account example_profile :: unit AzureTree))
     \<noteq> spec_precedence config_account example_profile ''account''"
  by (simp add: init_def Let_def spec_precedence_def config_account_def example_profile_def)

text \<open>
  C1, amended: the connection string and the SAS token are the explicit per-remote value
  when the mapping has a non-empty one, and the value of the profile otherwise (an absent
  or empty explicit value falls back); the account name and the account key are always the
  values of the profile, whatever the mapping holds.
\<close>

theorem init_auth_precedence:
  "(config ''connection_string'' = Some v \<and> v \<noteq> [] \<longrightarrow>
      connection_string (conn_kwargs (init config az)) = Some v) \<and>
   (\<not> truthy (config ''connection_string'') \<longrightarrow>
      connection_string (conn_kwargs (init config az)) = az ''storage'' ''connection_string'') \<and>
   (config ''sas_token'' = Some t \<and> t \<noteq> [] \<longrightarrow>
      sas_token (conn_kwargs (init config az)) = Some t) \<and>
   (\<not> truthy (config ''sas_token'') \<longrightarrow>
      sas_token (conn_kwargs (init config az)) = az ''storage'' ''sas_token'') \<and>
   account_name (conn_kwargs (init config az)) = az ''storage'' ''account'' \<and>
   account_key (conn_kwargs (init config az)) = az ''storage'' ''key''"
  by (simp add: init_def Let_def py_or_def truthy_def)

theorem init_auth_precedence_witness:
  "config_connection ''connection_string'' = Some ''my-cs'' \<and> ''my-cs'' \<noteq> [] \<and>
   connection_string (conn_kwargs (init config_connection example_profile :: unit AzureTree))
     = Some ''my-cs'' \<and>
   \<not> truthy (config_connection ''sas_token'') \<and>
   sas_token (conn_kwargs (init config_connection example_profile :: unit AzureTree))
     = Some ''profile-sas'' \<and>
   \<not> truthy (config_account ''connection_string'') \<and>
   connection_string (conn_kwargs (init config_account example_profile :: unit AzureTree))
     = Some ''profile-cs'' \<and>
   account_name (conn_kwargs (init config_account example_profile :: unit AzureTree))
     = Some ''profile-account'' \<and>
   account_key (conn_kwargs (init config_account example_profile :: unit AzureTree))
     = Some ''profile-key''"
  using init_auth_precedence [of config_connection "''my-cs''" example_profile "''x''"]
        init_auth_precedence [of config_account "''x''" example_profile "''x''"]
  by (simp add: config_connection_def config_account_def example_profile_def truthy_def
        init_def Let_def py_or_def)

text \<open>
  C8: when the URL option names no container and the profile stores the default container
  name \<open>C\<close>, the resolved path reference has container \<open>C\<close>. A container name is one
  segment of the textual form \<open>scheme://container[/path]\<close>: it holds no separator.
\<close>

theorem init_container_from_profile:
  assumes "bucket (PATH_CLS (url_option config)) = []"
      and "az ''storage'' ''container_name'' = Some C"
      and "CHR ''/'' \<notin> set C"
    shows "bucket (path_info (init config az :: 'h AzureTree)) = C"
proof -
  have "path_info (init config az :: 'h AzureTree) = PATH_CLS (''azure://'' @ C)"
    using assms(1,2) by (simp add: init_def Let_def format_str_def)
  then show ?thesis
    using bucket_PATH_CLS_azure [OF assms(3)] by (simp only:)
qed

theorem init_container_from_profile_witness:
  "bucket (PATH_CLS (url_option config_account)) = [] \<and>
   example_profile ''storage'' ''container_name'' = Some ''data'' \<and>
   CHR ''/'' \<notin> set ''data'' \<and>
   bucket (path_info (init config_account example_profile :: unit AzureTree)) = ''data''"
proof -
  have a: "bucket (PATH_CLS (url_option config_account)) = []"
    by (simp add: url_option_def config_account_def PATH_CLS_def)
  have b: "example_profile ''storage'' ''container_name'' = Some ''data''"
    by (simp add: example_profile_def)
  have c: "CHR ''/'' \<notin> set ''data''" by simp
  from init_container_from_profile [of config_account example_profile "''data''", OF a b c] a b c
  show ?thesis by simp
qed

subsection \<open>Hash lookup and directories\<close>

text \<open>
  C7: from the same state, \<open>isdir p\<close> returns true exactly when \<open>get_file_hash p\<close> returns
  \<open>None\<close>, false exactly when it returns a hash, raises exactly when it raises, and leaves
  the same state behind.
\<close>

theorem isdir_iff_no_hash:
  "(fst (isdir sdk p w) = Inr True \<longleftrightarrow> fst (get_file_hash sdk p w) = Inr None) \<and>
   (fst (isdir sdk p w) = Inr False \<longleftrightarrow> (\<exists>h. fst (get_file_hash sdk p w) = Inr (Some h))) \<and>
   (fst (isdir sdk p w) = Inl e \<longleftrightarrow> fst (get_file_hash sdk p w) = Inl e) \<and>
   snd (isdir sdk p w) = snd (get_file_hash sdk p w)"
  by (auto simp: isdir_def get_file_hash_def split: prod.splits sum.splits)

subsection \<open>The client handle\<close>

lemma record_call_simps [simp]:
  "tree (record_call q w) = tree w"
  "store (record_call q w) = store w"
  "calls (record_call q w) = calls w @ [q]"
  by (simp_all add: record_call_def)

lemma cache_handle_simps [simp]:
  "blob_service_cache (tree (cache_handle h w)) = Some h"
  "path_info (tree (cache_handle h w)) = path_info (tree w)"
  "conn_kwargs (tree (cache_handle h w)) = conn_kwargs (tree w)"
  "store (cache_handle h w) = store w"
  "calls (cache_handle h w) = calls w"
  by (simp_all add: cache_handle_def)

lemma blob_service_cached:
  "blob_service_cache (tree w) = Some h \<Longrightarrow> blob_service sdk w = (Inr h, w)"
  by (simp add: blob_service_def)

lemma blob_service_caches:
  "blob_service sdk w = (Inr h, w1) \<Longrightarrow> blob_service_cache (tree w1) = Some h"
  by (auto simp: blob_service_def Let_def split: option.splits sum.splits error.splits prod.splits)

lemma blob_service_no_delete:
  "filter is_delete (calls (snd (blob_service sdk w))) = filter is_delete (calls w)"
  by (auto simp: blob_service_def Let_def split: option.splits sum.splits error.splits prod.splits)

lemma get_md5sum_file_cached:
  "blob_service_cache (tree w) = Some h \<Longrightarrow>
   get_md5sum_file sdk container name w =
     (stored_hash sdk h container name (store w), record_call (GetBlobProperties container name) w)"
  by (simp add: get_md5sum_file_def blob_service_cached stored_hash_def Let_def split: sum.splits)

lemma warm_c_built: "blob_service mem_sdk (fresh tree_c store_c) = (Inr (), warm_c)"
  by code_simp

lemma warm_spec_built: "blob_service mem_sdk (fresh tree_c store_spec) = (Inr (), warm_spec)"
  by code_simp

text \<open>
  C2, as stated, fails for a path at which no object exists: the in-memory store, like the
  client library, raises the missing-resource error from the property lookup, and
  \<open>get_file_hash\<close> passes it on instead of returning \<open>None\<close>.
\<close>

theorem get_file_hash_missing_counterexample:
  "mem_exists () ''c'' ''nope'' store_c = Inr False \<and>
   fst (get_file_hash mem_sdk (PATH_CLS ''azure://c/nope'') (fresh tree_c store_c))
     = Inl AzureMissingResourceHttpError \<and>
   fst (get_file_hash mem_sdk (PATH_CLS ''azure://c/nope'') (fresh tree_c store_c)) \<noteq> Inr None"
  by code_simp

text \<open>
  C2, amended: once the client is available, \<open>get_file_hash\<close> returns \<open>None\<close> when the
  property lookup succeeds and the object carries no stored digest (none, or an empty
  one); it has no handler of its own, so an exception raised by the property lookup, such
  as the one for a path without an object, reaches the caller unchanged.
\<close>

theorem get_file_hash_absent:
  assumes "blob_service sdk w = (Inr h, w1)"
  shows "(sdk_get_blob_properties sdk h (bucket p) (path p) (store w1) = Inr md5 \<and> \<not> truthy md5 \<longrightarrow>
            fst (get_file_hash sdk p w) = Inr None) \<and>
         (sdk_get_blob_properties sdk h (bucket p) (path p) (store w1) = Inl e \<longrightarrow>
            fst (get_file_hash sdk p w) = Inl e)"
  using assms
  by (auto simp: get_file_hash_def get_md5sum_file_def Let_def decode_md5_def truthy_def split: option.splits)

theorem get_file_hash_absent_witness:
  "blob_service mem_sdk (fresh tree_c store_c) = (Inr (), warm_c) \<and>
   sdk_get_blob_properties mem_sdk () (bucket (PATH_CLS ''azure://c/a/y'')) (path (PATH_CLS ''azure://c/a/y''))
     (store warm_c) = Inr None \<and>
   \<not> truthy None \<and>
   fst (get_file_hash mem_sdk (PATH_CLS ''azure://c/a/y'') (fresh tree_c store_c)) = Inr None \<and>
   sdk_get_blob_properties mem_sdk () (bucket (PATH_CLS ''azure://c/nope'')) (path (PATH_CLS ''azure://c/nope''))
     (store warm_c) = Inl AzureMissingResourceHttpError \<and>
   fst (get_file_hash mem_sdk (PATH_CLS ''azure://c/nope'') (fresh tree_c store_c))
     = Inl AzureMissingResourceHttpError"
proof -
  have a: "sdk_get_blob_properties mem_sdk () (bucket (PATH_CLS ''azure://c/a/y''))
             (path (PATH_CLS ''azure://c/a/y'')) (store warm_c) = Inr None"
    by code_simp
  have b: "sdk_get_blob_properties mem_sdk () (bucket (PATH_CLS ''azure://c/nope''))
             (path (PATH_CLS ''azure://c/nope'')) (store warm_c) = Inl AzureMissingResourceHttpError"
    by code_simp
  have t: "\<not> truthy None" by (simp add: truthy_def)
  from get_file_hash_absent [OF warm_c_built, of "PATH_CLS ''azure://c/a/y''" None _]
       get_file_hash_absent [OF warm_c_built, of "PATH_CLS ''azure://c/nope''" _ AzureMissingResourceHttpError]
       a b t warm_c_built
  show ?thesis by simp
qed

subsection \<open>Existence check and removal\<close>

text \<open>
  C3, as stated, fails on the first call to the adapter: with no container in the store,
  the first \<open>exists\<close> builds the client, which creates the container.
\<close>

theorem exists_first_call_counterexample:
  "store (snd (exists mem_sdk (PATH_CLS ''azure://c/a'') (fresh tree_c []))) \<noteq> store (fresh tree_c [])"
  by code_simp

text \<open>
  C3, amended: once the client handle is cached, \<open>exists\<close> makes exactly one call, the
  store's existence check for the container and path, returns its answer, and leaves the
  store and the adapter as they were. On the first access the store and the adapter are
  left as the construction of the client leaves them (which creates the container when
  it is missing).
\<close>

theorem exists_frame:
  "(blob_service_cache (tree w) = Some h \<longrightarrow>
      exists sdk p w = (sdk_exists sdk h (bucket p) (path p) (store w),
                        w\<lparr>calls := calls w @ [Exists (bucket p) (path p)]\<rparr>)) \<and>
   store (snd (exists sdk p w)) = store (snd (blob_service sdk w)) \<and>
   tree (snd (exists sdk p w)) = tree (snd (blob_service sdk w))"
  by (auto simp: exists_def Let_def blob_service_cached record_call_def split: prod.splits sum.splits)

theorem exists_frame_witness:
  "blob_service_cache (tree warm_c) = Some () \<and>
   exists mem_sdk (PATH_CLS ''azure://c/a/x'') warm_c =
     (Inr True, warm_c\<lparr>calls := calls warm_c @ [Exists ''c'' ''a/x'']\<rparr>) \<and>
   store (snd (exists mem_sdk (PATH_CLS ''azure://c/a/x'') warm_c)) = store_c"
proof -
  have c: "blob_service_cache (tree warm_c) = Some ()" by (simp add: warm_c_def)
  have p: "bucket (PATH_CLS ''azure://c/a/x'') = ''c''" "path (PATH_CLS ''azure://c/a/x'') = ''a/x''"
    by (simp_all add: PATH_CLS_def)
  have e: "sdk_exists mem_sdk () ''c'' ''a/x'' (store warm_c) = Inr True" by code_simp
  have s: "store warm_c = store_c" by (simp add: warm_c_def fresh_def)
  from exists_frame [of warm_c "()" mem_sdk "PATH_CLS ''azure://c/a/x''"] c p e s
  show ?thesis by simp
qed

text \<open>
  C6: for a path reference of another scheme, \<open>remove\<close> raises \<open>NotImplementedError\<close> and
  leaves the adapter, the store and the sequence of calls untouched. For a path reference
  of the adapter's scheme, once the client is available, it makes one more call, the
  deletion of the blob at that container and path, which is the only deletion among its
  calls; the store is what that deletion leaves, and the result is the deletion's.
\<close>

theorem remove_scheme_guard:
  "(scheme p \<noteq> Schemes_AZURE \<longrightarrow> remove_azure sdk p w = (Inl NotImplementedError, w)) \<and>
   (scheme p = Schemes_AZURE \<and> blob_service sdk w = (Inr h, w1) \<longrightarrow>
      calls (snd (remove_azure sdk p w)) = calls w1 @ [DeleteBlob (bucket p) (path p)] \<and>
      filter is_delete (calls (snd (remove_azure sdk p w)))
        = filter is_delete (calls w) @ [DeleteBlob (bucket p) (path p)] \<and>
      store (snd (remove_azure sdk p w)) = snd (sdk_delete_blob sdk h (bucket p) (path p) (store w1)) \<and>
      fst (remove_azure sdk p w)
        = (case fst (sdk_delete_blob sdk h (bucket p) (path p) (store w1)) of
             None \<Rightarrow> Inr () | Some e \<Rightarrow> Inl e))"
proof -
  have "filter is_delete (calls w1) = filter is_delete (calls w)" if "blob_service sdk w = (Inr h, w1)"
    using blob_service_no_delete [of sdk w] that by simp
  then show ?thesis
    by (auto simp: remove_azure_def Let_def split: prod.splits option.splits)
qed

theorem remove_scheme_guard_witness:
  "scheme (PATH_CLS ''s3://c/a/x'') \<noteq> Schemes_AZURE \<and>
   remove_azure mem_sdk (PATH_CLS ''s3://c/a/x'') (fresh tree_c store_c)
     = (Inl NotImplementedError, fresh tree_c store_c) \<and>
   scheme (PATH_CLS ''azure://c/a/x'') = Schemes_AZURE \<and>
   blob_service mem_sdk (fresh tree_c store_c) = (Inr (), warm_c) \<and>
   filter is_delete (calls (snd (remove_azure mem_sdk (PATH_CLS ''azure://c/a/x'') (fresh tree_c store_c))))
     = [DeleteBlob ''c'' ''a/x''] \<and>
   fst (remove_azure mem_sdk (PATH_CLS ''azure://c/a/x'') (fresh tree_c store_c)) = Inr ()"
proof -
  have s3: "scheme (PATH_CLS ''s3://c/a/x'') \<noteq> Schemes_AZURE"
    by (simp add: PATH_CLS_def Schemes_AZURE_def)
  have az: "scheme (PATH_CLS ''azure://c/a/x'') = Schemes_AZURE"
    by (simp add: PATH_CLS_def Schemes_AZURE_def)
  have p: "bucket (PATH_CLS ''azure://c/a/x'') = ''c''" "path (PATH_CLS ''azure://c/a/x'') = ''a/x''"
    by (simp_all add: PATH_CLS_def)
  have d: "fst (sdk_delete_blob mem_sdk () ''c'' ''a/x'' (store warm_c)) = None" by code_simp
  have c0: "calls (fresh tree_c store_c) = []" by (simp add: fresh_def)
  have guard: "remove_azure mem_sdk (PATH_CLS ''s3://c/a/x'') (fresh tree_c store_c)
                 = (Inl NotImplementedError, fresh tree_c store_c)"
    using remove_scheme_guard [of "PATH_CLS ''s3://c/a/x''" mem_sdk "fresh tree_c store_c"] s3
    by blast
  note run = remove_scheme_guard [of "PATH_CLS ''azure://c/a/x''" mem_sdk "fresh tree_c store_c" "()" warm_c,
      THEN conjunct2, rule_format, OF conjI [OF az warm_c_built]]
  from run have "filter is_delete (calls (snd (remove_azure mem_sdk (PATH_CLS ''azure://c/a/x'')
                 (fresh tree_c store_c)))) =
               filter is_delete (calls (fresh tree_c store_c)) @
                 [DeleteBlob (bucket (PATH_CLS ''azure://c/a/x'')) (path (PATH_CLS ''azure://c/a/x''))]"
    by blast
  then have del: "filter is_delete (calls (snd (remove_azure mem_sdk (PATH_CLS ''azure://c/a/x'')
                 (fresh tree_c store_c)))) = [DeleteBlob ''c'' ''a/x'']"
    by (simp add: p c0)
  from run have "fst (remove_azure mem_sdk (PATH_CLS ''azure://c/a/x'') (fresh tree_c store_c)) =
               (case fst (sdk_delete_blob mem_sdk () (bucket (PATH_CLS ''azure://c/a/x''))
                            (path (PATH_CLS ''azure://c/a/x'')) (store warm_c)) of
                  None \<Rightarrow> Inr () | Some e \<Rightarrow> Inl e)"
    by blast
  then have ok: "fst (remove_azure mem_sdk (PATH_CLS ''azure://c/a/x'') (fresh tree_c store_c)) = Inr ()"
    by (simp add: p d)
  from s3 guard az warm_c_built del ok show ?thesis by blast
qed

subsection \<open>Paginated listing\<close>

lemma for_each_collect: "for_each collect xs acc w = (None, acc @ xs, w)"
  by (induction xs arbitrary: acc) (simp_all add: collect_def)

lemma list_pages_collect:
  assumes "serves (\<lambda>m. sdk_list_blobs sdk h container (page_args pfx m) r) mark pgs"
      and "length pgs \<le> fuel"
      and "store w = r"
    shows "list_pages fuel sdk h container pfx collect mark acc w =
             (Finished, acc @ concat (map items pgs),
              w\<lparr>calls := calls w @ map (\<lambda>m. ListBlobs container (page_args pfx m))
                                        (mark # map next_marker (butlast pgs))\<rparr>)"
  using assms
proof (induction pgs arbitrary: fuel mark acc w)
  case Nil
  then show ?case by simp
next
  case (Cons pg pgs)
  then obtain k where fuel: "fuel = Suc k" and k: "length pgs \<le> k"
    by (cases fuel) auto
  show ?case
  proof (cases pgs)
    case Nil
    with Cons.prems fuel show ?thesis
      by (simp add: Let_def for_each_collect record_call_def)
  next
    case (Cons pg2 rest)
    with Cons.prems have ask: "sdk_list_blobs sdk h container (page_args pfx mark) r = Inr pg"
      and more: "truthy (next_marker pg)"
      and tail: "serves (\<lambda>m. sdk_list_blobs sdk h container (page_args pfx m) r) (next_marker pg) pgs"
      by simp_all
    let ?w1 = "record_call (ListBlobs container (page_args pfx mark)) w"
    have "store ?w1 = r" using Cons.prems(3) by simp
    from Cons.IH [OF tail k this, of "acc @ items pg"] ask more fuel Cons.prems(3) Cons
    show ?thesis
      by (simp add: Let_def for_each_collect record_call_def)
  qed
qed

text \<open>
  C4: when the listing requires the pages \<open>pgs\<close> and the fuel allows that many requests,
  \<open>_list_paths\<close> finishes, the requests it adds are the page requests of \<open>pgs\<close> in order
  (the first without a marker, each later one with the marker of the page before), their
  number is the number of pages, and the names it yields are the entries of the pages
  one after the other, each exactly as often as the pages hold it.
\<close>

theorem list_paths_pages:
  assumes "blob_service sdk w = (Inr h, w1)"
      and "serves (\<lambda>m. sdk_list_blobs sdk h container (page_args pfx m) (store w1)) None pgs"
      and "length pgs \<le> fuel"
    shows "list_paths fuel sdk container pfx collect [] w =
             (Finished, concat (map items pgs),
              w1\<lparr>calls := calls w1 @ page_requests container pfx pgs\<rparr>) \<and>
           length (page_requests container pfx pgs) = length pgs"
proof -
  have "pgs \<noteq> []" using assms(2) by (cases pgs) auto
  then have "length (page_requests container pfx pgs) = length pgs"
    by (simp add: page_requests_def)
  moreover have "list_paths fuel sdk container pfx collect [] w =
             (Finished, concat (map items pgs),
              w1\<lparr>calls := calls w1 @ page_requests container pfx pgs\<rparr>)"
    using list_pages_collect [OF assms(2,3) refl, of "[]"] assms(1)
    by (simp add: list_paths_def page_requests_def)
  ultimately show ?thesis by simp
qed

theorem list_paths_pages_witness:
  "blob_service mem_sdk (fresh tree_c store_c) = (Inr (), warm_c) \<and>
   serves (\<lambda>m. sdk_list_blobs mem_sdk () ''c'' (page_args [] m) (store warm_c)) None pages_c \<and>
   length pages_c \<le> 3 \<and>
   length pages_c = 3 \<and>
   list_paths 3 mem_sdk ''c'' [] collect [] (fresh tree_c store_c) =
     (Finished, [''a/'', ''a/x'', ''a/y'', ''a/z'', ''a/zz'', ''b''],
      warm_c\<lparr>calls := calls warm_c @
                [ListBlobs ''c'' (page_args [] None),
                 ListBlobs ''c'' (page_args [] (Some ''a/y'')),
                 ListBlobs ''c'' (page_args [] (Some ''a/zz''))]\<rparr>)"
proof -
  have sv: "serves (\<lambda>m. sdk_list_blobs mem_sdk () ''c'' (page_args [] m) (store warm_c)) None pages_c"
    by code_simp
  have len: "length pages_c \<le> 3" "length pages_c = 3" by (simp_all add: pages_c_def)
  have req: "page_requests ''c'' [] pages_c =
               [ListBlobs ''c'' (page_args [] None),
                ListBlobs ''c'' (page_args [] (Some ''a/y'')),
                ListBlobs ''c'' (page_args [] (Some ''a/zz''))]"
    by (simp add: page_requests_def pages_c_def)
  have its: "concat (map items pages_c) = [''a/'', ''a/x'', ''a/y'', ''a/z'', ''a/zz'', ''b'']"
    by (simp add: pages_c_def)
  from list_paths_pages [OF warm_c_built sv len(1)] req its sv len warm_c_built
  show ?thesis by simp
qed

subsection \<open>Walking files\<close>

lemma walk_step_cached:
  assumes "blob_service_cache (tree w) = Some h"
  shows "walk_step sdk p fname acc w =
           (if endswith fname ''/'' then (None, acc, w)
            else (case stored_hash sdk h (bucket p) fname (store w) of
                    Inl e \<Rightarrow> (Some e, acc, record_call (GetBlobProperties (bucket p) fname) w)
                  | Inr None \<Rightarrow> (None, acc, record_call (GetBlobProperties (bucket p) fname) w)
                  | Inr (Some d) \<Rightarrow>
                      (None, acc @ [replace_path p fname],
                       record_call (GetBlobProperties (bucket p) fname) w)))"
  by (simp add: walk_step_def get_md5sum_file_cached [OF assms] split: sum.splits option.splits)

lemma for_each_walk:
  assumes "blob_service_cache (tree w) = Some h" and "store w = r"
      and "list_all (readable sdk h (bucket p) r) xs"
  shows "\<exists>w1. for_each (walk_step sdk p) xs acc w =
                 (None, acc @ map (replace_path p) (filter (kept sdk h (bucket p) r) xs), w1) \<and>
               blob_service_cache (tree w1) = Some h \<and> store w1 = r"
  using assms
proof (induction xs arbitrary: acc w)
  case Nil
  then show ?case by simp
next
  case (Cons x xs)
  from Cons.prems(3) have rx: "readable sdk h (bucket p) r x"
    and rxs: "list_all (readable sdk h (bucket p) r) xs" by simp_all
  let ?w1 = "record_call (GetBlobProperties (bucket p) x) w"
  have inv1: "blob_service_cache (tree ?w1) = Some h" "store ?w1 = r"
    using Cons.prems(1,2) by simp_all
  show ?case
  proof (cases "endswith x ''/''")
    case True
    with Cons.IH [OF Cons.prems(1,2) rxs, of acc] show ?thesis
      by (simp add: walk_step_cached [OF Cons.prems(1)] kept_def)
  next
    case False
    with rx obtain d where d: "stored_hash sdk h (bucket p) x r = Inr d"
      by (auto simp: readable_def split: sum.splits)
    show ?thesis
    proof (cases d)
      case None
      with d False Cons.IH [OF inv1 rxs, of acc] Cons.prems(2) show ?thesis
        by (simp add: walk_step_cached [OF Cons.prems(1)] kept_def)
    next
      case (Some v)
      with d False Cons.IH [OF inv1 rxs, of "acc @ [replace_path p x]"] Cons.prems(2) show ?thesis
        by (simp add: walk_step_cached [OF Cons.prems(1)] kept_def)
    qed
  qed
qed

lemma list_pages_walk:
  assumes "serves (\<lambda>m. sdk_list_blobs sdk h container (page_args pfx m) r) mark pgs"
      and "length pgs \<le> fuel"
      and "blob_service_cache (tree w) = Some h" and "store w = r"
      and "list_all (readable sdk h (bucket p) r) (concat (map items pgs))"
    shows "\<exists>w1. list_pages fuel sdk h container pfx (walk_step sdk p) mark acc w =
             (Finished,
              acc @ map (replace_path p) (filter (kept sdk h (bucket p) r) (concat (map items pgs))),
              w1)"
  using assms
proof (induction pgs arbitrary: fuel mark acc w)
  case Nil
  then show ?case by simp
next
  case (Cons pg pgs)
  then obtain k where fuel: "fuel = Suc k" and k: "length pgs \<le> k"
    by (cases fuel) auto
  let ?w1 = "record_call (ListBlobs container (page_args pfx mark)) w"
  have inv1: "blob_service_cache (tree ?w1) = Some h" "store ?w1 = r"
    using Cons.prems(3,4) by simp_all
  from Cons.prems(5) have rpg: "list_all (readable sdk h (bucket p) r) (items pg)"
    and rrest: "list_all (readable sdk h (bucket p) r) (concat (map items pgs))"
    by simp_all
  from for_each_walk [OF inv1 rpg, of acc] obtain w2 where
    page: "for_each (walk_step sdk p) (items pg) acc ?w1 =
             (None, acc @ map (replace_path p) (filter (kept sdk h (bucket p) r) (items pg)), w2)"
    and inv2: "blob_service_cache (tree w2) = Some h" "store w2 = r"
    by blast
  show ?case
  proof (cases pgs)
    case Nil
    with Cons.prems(1,4) fuel page show ?thesis
      by (simp add: Let_def)
  next
    case (Cons pg2 rest)
    with Cons.prems(1) have ask: "sdk_list_blobs sdk h container (page_args pfx mark) r = Inr pg"
      and more: "truthy (next_marker pg)"
      and tail: "serves (\<lambda>m. sdk_list_blobs sdk h container (page_args pfx m) r) (next_marker pg) pgs"
      by simp_all
    from Cons.IH [OF tail k inv2 rrest,
        of "acc @ map (replace_path p) (filter (kept sdk h (bucket p) r) (items pg))"]
      ask more fuel page Cons.prems(4)
    show ?thesis
      by (simp add: Let_def)
  qed
qed

lemma walk_files_listing:
  assumes "blob_service sdk w = (Inr h, w1)"
      and "q = (if \<not> prefix_kw then truediv query [] else query)"
      and "serves (\<lambda>m. sdk_list_blobs sdk h (bucket q) (page_args (path q) m) (store w1)) None pgs"
      and "length pgs \<le> fuel"
      and "list_all (readable sdk h (bucket q) (store w1)) (concat (map items pgs))"
    shows "fst (walk_files fuel sdk query prefix_kw w) = Finished \<and>
           fst (snd (walk_files fuel sdk query prefix_kw w)) =
             map (replace_path q) (filter (kept sdk h (bucket q) (store w1)) (concat (map items pgs)))"
proof -
  have cached: "blob_service_cache (tree w1) = Some h"
    using assms(1) by (rule blob_service_caches)
  from list_pages_walk [OF assms(3,4) cached refl assms(5), of "[]"] obtain w2 where
    "list_pages fuel sdk h (bucket q) (path q) (walk_step sdk q) None [] w1 =
       (Finished,
        map (replace_path q) (filter (kept sdk h (bucket q) (store w1)) (concat (map items pgs))), w2)"
    by auto
  then show ?thesis
    using assms(1,2) by (simp add: walk_files_def list_paths_def Let_def)
qed

lemma hash_ax: "stored_hash mem_sdk () ''c'' ''a/x'' store_spec = Inr (Some ''010203'')"
  by (simp add: stored_hash_def mem_sdk_def mem_get_blob_properties_def store_spec_def decode_md5_def
        strip_def b64_group_def b64_index_def hex_def hexdigit_def)

lemma hash_ay: "stored_hash mem_sdk () ''c'' ''a/y'' store_spec = Inr None"
  by (simp add: stored_hash_def mem_sdk_def mem_get_blob_properties_def store_spec_def decode_md5_def)

lemma spec_query:
  "PATH_CLS ''azure://c/a/'' =
     (if \<not> False then truediv (PATH_CLS ''azure://c/a'') [] else PATH_CLS ''azure://c/a'')"
  by code_simp

lemma spec_parts:
  "bucket (PATH_CLS ''azure://c/a/'') = ''c''" "path (PATH_CLS ''azure://c/a/'') = ''a/''"
  "store warm_spec = store_spec"
  by (simp_all add: PATH_CLS_def warm_spec_def fresh_def)

lemma spec_serves:
  "serves (\<lambda>m. sdk_list_blobs mem_sdk () (bucket (PATH_CLS ''azure://c/a/''))
                  (page_args (path (PATH_CLS ''azure://c/a/'')) m) (store warm_spec)) None pages_spec"
  by code_simp

lemma spec_readable:
  "list_all (readable mem_sdk () (bucket (PATH_CLS ''azure://c/a/'')) (store warm_spec))
     (concat (map items pages_spec))"
  by (simp add: spec_parts pages_spec_def readable_def hash_ax hash_ay endswith_def)

lemma spec_kept:
  "map (replace_path (PATH_CLS ''azure://c/a/''))
     (filter (kept mem_sdk () (bucket (PATH_CLS ''azure://c/a/'')) (store warm_spec))
        (concat (map items pages_spec))) =
   [\<lparr>scheme = ''azure'', bucket = ''c'', path = ''a/x''\<rparr>]"
  by (simp add: spec_parts pages_spec_def kept_def hash_ax hash_ay endswith_def
        replace_path_def PATH_CLS_def)

lemma walk_spec_run:
  "fst (snd (walk_files 2 mem_sdk (PATH_CLS ''azure://c/a'') False (fresh tree_c store_spec))) =
     [\<lparr>scheme = ''azure'', bucket = ''c'', path = ''a/x''\<rparr>]"
proof -
  have len: "length pages_spec \<le> 2" by (simp add: pages_spec_def)
  from walk_files_listing [OF warm_spec_built spec_query spec_serves len spec_readable]
  show ?thesis unfolding spec_kept by (rule conjunct2)
qed

text \<open>
  C5: when the listing requires the pages \<open>pgs\<close> and no hash lookup raises, \<open>walk_files\<close>
  finishes and yields, in listing order, the path references of exactly the listed names
  that do not end in the separator and whose hash lookup does not give \<open>None\<close>. On the
  specification's example it yields \<open>a/x\<close> alone.
\<close>

theorem walk_files_filters:
  assumes "blob_service sdk w = (Inr h, w1)"
      and "q = (if \<not> prefix_kw then truediv query [] else query)"
      and "serves (\<lambda>m. sdk_list_blobs sdk h (bucket q) (page_args (path q) m) (store w1)) None pgs"
      and "length pgs \<le> fuel"
      and "list_all (readable sdk h (bucket q) (store w1)) (concat (map items pgs))"
    shows "fst (walk_files fuel sdk query prefix_kw w) = Finished \<and>
           fst (snd (walk_files fuel sdk query prefix_kw w)) =
             map (replace_path q) (filter (kept sdk h (bucket q) (store w1)) (concat (map items pgs)))"
  using assms by (rule walk_files_listing)

theorem walk_files_filters_witness:
  "blob_service mem_sdk (fresh tree_c store_spec) = (Inr (), warm_spec) \<and>
   PATH_CLS ''azure://c/a/'' = (if \<not> False then truediv (PATH_CLS ''azure://c/a'') [] else PATH_CLS ''azure://c/a'') \<and>
   serves (\<lambda>m. sdk_list_blobs mem_sdk () (bucket (PATH_CLS ''azure://c/a/''))
                  (page_args (path (PATH_CLS ''azure://c/a/'')) m) (store warm_spec)) None pages_spec \<and>
   length pages_spec \<le> 2 \<and>
   list_all (readable mem_sdk () (bucket (PATH_CLS ''azure://c/a/'')) (store warm_spec))
     (concat (map items pages_spec)) \<and>
   fst (walk_files 2 mem_sdk (PATH_CLS ''azure://c/a'') False (fresh tree_c store_spec)) = Finished \<and>
   fst (snd (walk_files 2 mem_sdk (PATH_CLS ''azure://c/a'') False (fresh tree_c store_spec))) =
     [\<lparr>scheme = ''azure'', bucket = ''c'', path = ''a/x''\<rparr>]"
proof -
  have len: "length pages_spec \<le> 2" by (simp add: pages_spec_def)
  note run = walk_files_filters [OF warm_spec_built spec_query spec_serves len spec_readable]
  from run have "fst (walk_files 2 mem_sdk (PATH_CLS ''azure://c/a'') False (fresh tree_c store_spec)) = Finished"
    by (rule conjunct1)
  moreover from run have "fst (snd (walk_files 2 mem_sdk (PATH_CLS ''azure://c/a'') False (fresh tree_c store_spec))) =
     [\<lparr>scheme = ''azure'', bucket = ''c'', path = ''a/x''\<rparr>]"
    unfolding spec_kept by (rule conjunct2)
  ultimately show ?thesis
    using warm_spec_built spec_query spec_serves len spec_readable by blast
qed

lemma for_each_inv:
  assumes step: "\<And>x a w e a1 w1. I a \<Longrightarrow> body x a w = (e, a1, w1) \<Longrightarrow> I a1"
      and "I acc"
    shows "I (fst (snd (for_each body xs acc w)))"
  using assms(2)
proof (induction xs arbitrary: acc w)
  case Nil
  then show ?case by simp
next
  case (Cons x xs)
  obtain e a1 w1 where b: "body x acc w = (e, a1, w1)" by (cases "body x acc w") auto
  with step Cons.prems have "I a1" by blast
  with Cons.IH [of a1 w1] b show ?case
    by (cases e) simp_all
qed

lemma list_pages_inv:
  assumes step: "\<And>x a w e a1 w1. I a \<Longrightarrow> body x a w = (e, a1, w1) \<Longrightarrow> I a1"
      and "I acc"
    shows "I (fst (snd (list_pages fuel sdk h container pfx body mark acc w)))"
  using assms(2)
proof (induction fuel arbitrary: mark acc w)
  case 0
  then show ?case by simp
next
  case (Suc fuel)
  let ?w1 = "record_call (ListBlobs container (page_args pfx mark)) w"
  show ?case
  proof (cases "sdk_list_blobs sdk h container (page_args pfx mark) (store ?w1)")
    case (Inl e)
    with Suc.prems show ?thesis by (simp add: Let_def)
  next
    case (Inr blobs)
    obtain e a1 w2 where f: "for_each body (items blobs) acc ?w1 = (e, a1, w2)"
      by (cases "for_each body (items blobs) acc ?w1") auto
    from for_each_inv [of I body acc "items blobs" ?w1, OF step Suc.prems] f
    have "I a1" by simp
    with Suc.IH [of a1 "next_marker blobs" w2] Inr f show ?thesis
      by (cases e) (simp_all add: Let_def)
  qed
qed

lemma walk_step_inv:
  assumes "\<forall>x\<in>set a. x = replace_path q (path x)"
      and "walk_step sdk q fname a w = (e, a1, w1)"
    shows "\<forall>x\<in>set a1. x = replace_path q (path x)"
  using assms
  by (auto simp: walk_step_def replace_path_def split: if_splits prod.splits sum.splits option.splits)

text \<open>
  C10: every path reference yielded by \<open>walk_files\<close>, however the run ends, has the
  scheme and the container of the query and is the query with its path component
  replaced.
\<close>

theorem walk_files_same_container:
  "\<forall>p \<in> set (fst (snd (walk_files fuel sdk query prefix_kw w))).
     scheme p = scheme query \<and> bucket p = bucket query \<and> p = replace_path query (path p)"
proof -
  define q where "q = (if \<not> prefix_kw then truediv query [] else query)"
  let ?I = "\<lambda>a. \<forall>x\<in>set a. x = replace_path q (path x)"
  have q: "replace_path q n = replace_path query n" for n
    by (simp add: q_def truediv_def replace_path_def)
  have "?I (fst (snd (walk_files fuel sdk query prefix_kw w)))"
  proof (cases "blob_service sdk w")
    case (Pair res w1)
    show ?thesis
    proof (cases res)
      case (Inl e)
      with Pair show ?thesis by (simp add: walk_files_def list_paths_def Let_def)
    next
      case (Inr h)
      have "?I (fst (snd (list_pages fuel sdk h (bucket q) (path q) (walk_step sdk q) None [] w1)))"
        by (rule list_pages_inv [where I = ?I]) (auto intro: walk_step_inv [rule_format])
      with Pair Inr show ?thesis
        by (simp add: walk_files_def list_paths_def Let_def q_def)
    qed
  qed
  then have "\<forall>x\<in>set (fst (snd (walk_files fuel sdk query prefix_kw w))). x = replace_path query (path x)"
    by (simp add: q)
  then show ?thesis
    by (auto simp: replace_path_def) (metis CloudURLInfo.select_convs CloudURLInfo.surjective CloudURLInfo.update_convs)+
qed

theorem walk_files_same_container_witness:
  "\<lparr>scheme = ''azure'', bucket = ''c'', path = ''a/x''\<rparr>
     \<in> set (fst (snd (walk_files 2 mem_sdk (PATH_CLS ''azure://c/a'') False (fresh tree_c store_spec)))) \<and>
   scheme \<lparr>scheme = ''azure'', bucket = ''c'', path = ''a/x''\<rparr> = scheme (PATH_CLS ''azure://c/a'') \<and>
   bucket \<lparr>scheme = ''azure'', bucket = ''c'', path = ''a/x''\<rparr> = bucket (PATH_CLS ''azure://c/a'')"
proof -
  have m: "\<lparr>scheme = ''azure'', bucket = ''c'', path = ''a/x''\<rparr>
     \<in> set (fst (snd (walk_files 2 mem_sdk (PATH_CLS ''azure://c/a'') False (fresh tree_c store_spec))))"
    by (simp add: walk_spec_run)
  from walk_files_same_container [of 2 mem_sdk "PATH_CLS ''azure://c/a''" False "fresh tree_c store_spec"] m
  show ?thesis by blast
qed

end
